theory Spec2Isabelle
  imports Main "HOL-Library.Word" "HOL-Library.AList" "HOL-Library.Sublist"
begin

section \<open>JavaScript strings\<close>

text \<open>
  A JavaScript string is a sequence of 16-bit UTF-16 code units. ASCII literals of
  \<^verbatim>\<open>src/app/page.tsx\<close> are written \<open>js ''...''\<close>; the Korean literals are given by
  their code units.
\<close>

type_synonym code_unit = "16 word"
type_synonym jsstring = "code_unit list"

definition js :: "string \<Rightarrow> jsstring" where
  "js s = map of_char s"

text \<open>
  \<^verbatim>\<open>String.prototype.trim\<close> removes leading and trailing WhiteSpace and LineTerminator
  code points (ECMA-262): TAB, LF, VT, FF, CR, SP, NBSP, the Unicode space separators,
  LS, PS and the byte order mark.
\<close>

definition isWhiteSpace :: "code_unit \<Rightarrow> bool" where
  "isWhiteSpace c \<longleftrightarrow>
     c \<in> set [0x09, 0x0A, 0x0B, 0x0C, 0x0D, 0x20, 0xA0, 0x1680,
               0x2028, 0x2029, 0x202F, 0x205F, 0x3000, 0xFEFF]
     \<or> (0x2000 \<le> c \<and> c \<le> 0x200A)"

definition trim :: "jsstring \<Rightarrow> jsstring" where
  "trim s = rev (dropWhile isWhiteSpace (rev (dropWhile isWhiteSpace s)))"

section \<open>JSON values and the builtin \<^verbatim>\<open>JSON.parse\<close>\<close>

text \<open>
  \<^verbatim>\<open>JSON.parse\<close> is an ECMAScript builtin, not code of the repository. It is modelled
  after the JSON grammar (ECMA-404) as a recursive-descent parser. A number keeps its
  lexeme (no floating point), an object is the list of its members in insertion order,
  a repeated key overwriting the earlier value in place (that JavaScript enumerates
  integer-like keys first is not modelled; no property below depends on it).
\<close>

datatype json =
    JNull
  | JBool bool
  | JNumber jsstring
  | JString jsstring
  | JArray "json list"
  | JObject "(jsstring \<times> json) list"

definition json_ws :: "code_unit \<Rightarrow> bool" where
  "json_ws c \<longleftrightarrow> c = 0x20 \<or> c = 0x09 \<or> c = 0x0A \<or> c = 0x0D"

definition skip_ws :: "jsstring \<Rightarrow> jsstring" where
  "skip_ws cs = dropWhile json_ws cs"

definition is_digit :: "code_unit \<Rightarrow> bool" where
  "is_digit c \<longleftrightarrow> 0x30 \<le> c \<and> c \<le> 0x39"

definition hex_value :: "code_unit \<Rightarrow> code_unit option" where
  "hex_value c =
     (if 0x30 \<le> c \<and> c \<le> 0x39 then Some (c - 0x30)
      else if 0x41 \<le> c \<and> c \<le> 0x46 then Some (c - 0x37)
      else if 0x61 \<le> c \<and> c \<le> 0x66 then Some (c - 0x57)
      else None)"

definition simple_escape :: "code_unit \<Rightarrow> code_unit option" where
  "simple_escape e =
     (if e = 0x22 then Some 0x22
      else if e = 0x5C then Some 0x5C
      else if e = 0x2F then Some 0x2F
      else if e = 0x62 then Some 0x08
      else if e = 0x66 then Some 0x0C
      else if e = 0x6E then Some 0x0A
      else if e = 0x72 then Some 0x0D
      else if e = 0x74 then Some 0x09
      else None)"

text \<open>The characters of a string literal after its opening quote, up to the closing one.\<close>

fun string_chars :: "jsstring \<Rightarrow> (jsstring \<times> jsstring) option" where
  "string_chars [] = None"
| "string_chars (c # cs) =
     (if c = 0x22 then Some ([], cs)
      else if c = 0x5C then
        (case cs of
           [] \<Rightarrow> None
         | e # cs1 \<Rightarrow>
             if e = 0x75 then
               (case cs1 of
                  h1 # h2 # h3 # h4 # cs2 \<Rightarrow>
                    (case (hex_value h1, hex_value h2, hex_value h3, hex_value h4) of
                       (Some a, Some b, Some c', Some d) \<Rightarrow>
                         (case string_chars cs2 of
                            None \<Rightarrow> None
                          | Some (s, r) \<Rightarrow> Some ((((a * 16 + b) * 16 + c') * 16 + d) # s, r))
                     | _ \<Rightarrow> None)
                | _ \<Rightarrow> None)
             else
               (case simple_escape e of
                  None \<Rightarrow> None
                | Some x \<Rightarrow>
                    (case string_chars cs1 of
                       None \<Rightarrow> None
                     | Some (s, r) \<Rightarrow> Some (x # s, r))))
      else if c < 0x20 then None
      else
        (case string_chars cs of
           None \<Rightarrow> None
         | Some (s, r) \<Rightarrow> Some (c # s, r)))"

text \<open>
  A number: \<^verbatim>\<open>-? (0 | [1-9][0-9]*) (. [0-9]+)? ([eE] [+-]? [0-9]+)?\<close>, returned as
  its lexeme with the rest of the input.
\<close>

definition number_int :: "jsstring \<Rightarrow> (jsstring \<times> jsstring) option" where
  "number_int cs =
     (case cs of
        [] \<Rightarrow> None
      | d # r \<Rightarrow>
          if d = 0x30 then Some ([d], r)
          else if is_digit d then Some (d # takeWhile is_digit r, dropWhile is_digit r)
          else None)"

definition number_frac :: "jsstring \<Rightarrow> (jsstring \<times> jsstring) option" where
  "number_frac cs =
     (case cs of
        [] \<Rightarrow> Some ([], cs)
      | p # r \<Rightarrow>
          if p = 0x2E then
            (if takeWhile is_digit r = [] then None
             else Some (p # takeWhile is_digit r, dropWhile is_digit r))
          else Some ([], cs))"

definition number_sign :: "jsstring \<Rightarrow> jsstring \<times> jsstring" where
  "number_sign cs =
     (case cs of
        [] \<Rightarrow> ([], cs)
      | s # r \<Rightarrow> if s = 0x2B \<or> s = 0x2D then ([s], r) else ([], cs))"

definition number_exp :: "jsstring \<Rightarrow> (jsstring \<times> jsstring) option" where
  "number_exp cs =
     (case cs of
        [] \<Rightarrow> Some ([], cs)
      | e # r \<Rightarrow>
          if e = 0x65 \<or> e = 0x45 then
            (case number_sign r of
               (sg, r1) \<Rightarrow>
                 if takeWhile is_digit r1 = [] then None
                 else Some (e # sg @ takeWhile is_digit r1, dropWhile is_digit r1))
          else Some ([], cs))"

definition parse_number :: "jsstring \<Rightarrow> (jsstring \<times> jsstring) option" where
  "parse_number cs =
     (case (case cs of
              [] \<Rightarrow> ([], cs)
            | m # r \<Rightarrow> if m = 0x2D then ([m], r) else ([], cs)) of
        (neg, r0) \<Rightarrow>
          (case number_int r0 of
             None \<Rightarrow> None
           | Some (ip, r1) \<Rightarrow>
               (case number_frac r1 of
                  None \<Rightarrow> None
                | Some (fp, r2) \<Rightarrow>
                    (case number_exp r2 of
                       None \<Rightarrow> None
                     | Some (ep, r3) \<Rightarrow> Some (neg @ ip @ fp @ ep, r3)))))"

definition parse_literal :: "jsstring \<Rightarrow> (json \<times> jsstring) option" where
  "parse_literal cs =
     (if prefix (js ''null'') cs then Some (JNull, drop 4 cs)
      else if prefix (js ''true'') cs then Some (JBool True, drop 4 cs)
      else if prefix (js ''false'') cs then Some (JBool False, drop 5 cs)
      else None)"

text \<open>
  Values, array elements and object members. The recursion follows the input, which
  every call leaves shorter; the tests \<open>length r < length cs\<close> make this visible to the
  termination proof and never fail (\<open>parse_elements_unguarded\<close> and
  \<open>parse_members_unguarded\<close> below).
\<close>

function parse_value :: "jsstring \<Rightarrow> (json \<times> jsstring) option"
  and parse_elements :: "jsstring \<Rightarrow> (json list \<times> jsstring) option"
  and parse_members :: "jsstring \<Rightarrow> ((jsstring \<times> json) list \<times> jsstring) option"
where
  "parse_value cs =
     (case skip_ws cs of
        [] \<Rightarrow> None
      | c # rest \<Rightarrow>
          if c = 0x5B then
            (case skip_ws rest of
               [] \<Rightarrow> None
             | d # rest1 \<Rightarrow>
                 if d = 0x5D then Some (JArray [], rest1)
                 else
                   (case parse_elements rest of
                      None \<Rightarrow> None
                    | Some (vs, r) \<Rightarrow> Some (JArray vs, r)))
          else if c = 0x7B then
            (case skip_ws rest of
               [] \<Rightarrow> None
             | d # rest1 \<Rightarrow>
                 if d = 0x7D then Some (JObject [], rest1)
                 else
                   (case parse_members rest of
                      None \<Rightarrow> None
                    | Some (ms, r) \<Rightarrow>
                        Some (JObject (foldl (\<lambda>ob (k, v). AList.update k v ob) [] ms), r)))
          else if c = 0x22 then
            (case string_chars rest of
               None \<Rightarrow> None
             | Some (s, r) \<Rightarrow> Some (JString s, r))
          else if c = 0x6E \<or> c = 0x74 \<or> c = 0x66 then parse_literal (c # rest)
          else
            (case parse_number (c # rest) of
               None \<Rightarrow> None
             | Some (n, r) \<Rightarrow> Some (JNumber n, r)))"
| "parse_elements cs =
     (case parse_value cs of
        None \<Rightarrow> None
      | Some (v, r) \<Rightarrow>
          (case skip_ws r of
             [] \<Rightarrow> None
           | c # r1 \<Rightarrow>
               if c = 0x5D then Some ([v], r1)
               else if c = 0x2C \<and> length r1 < length cs then
                 (case parse_elements r1 of
                    None \<Rightarrow> None
                  | Some (vs, r2) \<Rightarrow> Some (v # vs, r2))
               else None))"
| "parse_members cs =
     (case skip_ws cs of
        [] \<Rightarrow> None
      | q # r0 \<Rightarrow>
          if q = 0x22 then
            (case string_chars r0 of
               None \<Rightarrow> None
             | Some (k, r1) \<Rightarrow>
                 (case skip_ws r1 of
                    [] \<Rightarrow> None
                  | c # r2 \<Rightarrow>
                      if c = 0x3A \<and> length r2 < length cs then
                        (case parse_value r2 of
                           None \<Rightarrow> None
                         | Some (v, r3) \<Rightarrow>
                             (case skip_ws r3 of
                                [] \<Rightarrow> None
                              | e # r4 \<Rightarrow>
                                  if e = 0x7D then Some ([(k, v)], r4)
                                  else if e = 0x2C \<and> length r4 < length cs then
                                    (case parse_members r4 of
                                       None \<Rightarrow> None
                                     | Some (ms, r5) \<Rightarrow> Some ((k, v) # ms, r5))
                                  else None))
                      else None))
          else None)"
  by pat_completeness auto
termination
proof -
  have skip: "length rest < length cs" if "skip_ws cs = c # rest" for cs c rest
  proof -
    from that have "length (c # rest) \<le> length cs"
      unfolding skip_ws_def by (metis length_dropWhile_le)
    then show ?thesis by simp
  qed
  show ?thesis
    by (relation "measure (\<lambda>x. case x of
          Inl cs \<Rightarrow> 2 * length cs
        | Inr (Inl cs) \<Rightarrow> 2 * length cs + 1
        | Inr (Inr cs) \<Rightarrow> 2 * length cs + 1)")
       (auto dest: skip)
qed

text \<open>
  \<^verbatim>\<open>JSON.parse(text)\<close>: the value, when the whole text is one JSON value between optional
  white space; otherwise it throws a SyntaxError (\<open>None\<close>).
\<close>

definition JSON_parse :: "jsstring \<Rightarrow> json option" where
  "JSON_parse text =
     (case parse_value text of
        None \<Rightarrow> None
      | Some (v, r) \<Rightarrow> if skip_ws r = [] then Some v else None)"

section \<open>The response clean-up of \<^verbatim>\<open>processQuestion\<close>\<close>

text \<open>
  \<^verbatim>\<open>.replace(/^```json|```$/g, "")\<close> (page.tsx:118). The pattern has no \<^verbatim>\<open>m\<close> flag, so
  \<^verbatim>\<open>^\<close> is the start and \<^verbatim>\<open>$\<close> the end of the string. The global replace scans from
  the left: at index 0 it tries \<^verbatim>\<open>```json\<close>, and at every index it tries a
  \<^verbatim>\<open>```\<close> that ends the string; matched text is dropped, anything else is kept.
\<close>

fun remove_end_fence :: "jsstring \<Rightarrow> jsstring" where
  "remove_end_fence [] = []"
| "remove_end_fence (c # cs) =
     (if c # cs = js ''```'' then [] else c # remove_end_fence cs)"

definition replace_fences :: "jsstring \<Rightarrow> jsstring" where
  "replace_fences s =
     (if prefix (js ''```json'') s then remove_end_fence (drop 7 s)
      else remove_end_fence s)"

definition cleanJsonStr :: "jsstring \<Rightarrow> jsstring" where
  "cleanJsonStr responseText = trim (replace_fences (trim responseText))"

section \<open>The state of the page\<close>

text \<open>
  \<^verbatim>\<open>interface BookInfo\<close> is a compile-time annotation: at run time \<open>result\<close> holds
  whatever \<^verbatim>\<open>JSON.parse\<close> returned, and \<^verbatim>\<open>null\<close> is \<open>JNull\<close>. The shape the
  interface describes is the predicate \<open>isBookInfo\<close>; \<open>empty_fields\<close> lists the
  fields of the interface that hold the empty string.
\<close>

definition BookInfo_fields :: "jsstring list" where
  "BookInfo_fields =
     [js ''title'', js ''author'', js ''publisher'', js ''publicationYear'',
      js ''genre'', js ''language'']"

definition isBookInfo :: "json \<Rightarrow> bool" where
  "isBookInfo v =
     (case v of
        JObject ms \<Rightarrow>
          list_all (\<lambda>k. case map_of ms k of Some (JString _) \<Rightarrow> True | _ \<Rightarrow> False)
            BookInfo_fields
      | _ \<Rightarrow> False)"


record QuestionResult =
  question :: jsstring
  result :: json
  error :: "jsstring option"
  isLoading :: bool

text \<open>
  One call of \<^verbatim>\<open>model.generateContent\<close>: the slot it was issued for, the API key the
  client was built with and the question substituted into \<^verbatim>\<open>PROMPT_TEMPLATE\<close>. The
  prompt is a function of the question alone and is not modelled further; the
  constructors of the client and of the model store their arguments and do not throw.
\<close>

record generateContent_call =
  call_index :: nat
  call_apiKey :: jsstring
  call_question :: jsstring

text \<open>
  The component state of \<^verbatim>\<open>Home\<close>. Every array copy \<^verbatim>\<open>[...questions]\<close> is shallow:
  all copies hold the same five slot objects, which the handlers mutate in place, so the
  slots are one list indexed by position. Two fields record the effects on the outside
  world: \<open>calls\<close>, the log of \<^verbatim>\<open>generateContent\<close> calls issued so far, and \<open>awaiting\<close>,
  the calls (positions in the log) whose \<^verbatim>\<open>await\<close> has not resumed yet.
\<close>

record Home =
  apiKeys :: "jsstring list"
  selectedApiKey :: jsstring
  newApiKey :: jsstring
  showAddForm :: bool
  questions :: "QuestionResult list"
  calls :: "generateContent_call list"
  awaiting :: "nat list"

definition initial_question :: jsstring where
  "initial_question =
     [0x4A, 0x2E, 0x4B, 0x2E, 0x20, 0xB864, 0xB9C1, 0xC758, 0x20, 0xD574, 0xB9AC, 0xD3EC,
      0xD130, 0x20, 0xCC3E, 0xC544, 0xC918, 0x2E]"

definition empty_slot :: "jsstring \<Rightarrow> QuestionResult" where
  "empty_slot q = \<lparr>question = q, result = JNull, error = None, isLoading = False\<rparr>"

definition Home_initial :: Home where
  "Home_initial =
     \<lparr>apiKeys = [], selectedApiKey = [], newApiKey = [], showAddForm = False,
      questions = [empty_slot initial_question, empty_slot [], empty_slot [],
                   empty_slot [], empty_slot []],
      calls = [], awaiting = []\<rparr>"

section \<open>API keys\<close>

definition setNewApiKey :: "jsstring \<Rightarrow> Home \<Rightarrow> Home" where
  "setNewApiKey v st = st\<lparr>newApiKey := v\<rparr>"

definition setSelectedApiKey :: "jsstring \<Rightarrow> Home \<Rightarrow> Home" where
  "setSelectedApiKey v st = st\<lparr>selectedApiKey := v\<rparr>"

definition handleAddApiKey :: "Home \<Rightarrow> Home" where
  "handleAddApiKey st =
     (if trim (newApiKey st) \<noteq> [] \<and> trim (newApiKey st) \<notin> set (apiKeys st) then
        st\<lparr>apiKeys := apiKeys st @ [trim (newApiKey st)],
           selectedApiKey := trim (newApiKey st),
           newApiKey := [],
           showAddForm := False\<rparr>
      else st)"

text \<open>Typing \<open>raw\<close> into the input and pressing the add button.\<close>

definition addCredential :: "jsstring \<Rightarrow> Home \<Rightarrow> Home" where
  "addCredential raw st = handleAddApiKey (setNewApiKey raw st)"

text \<open>\<^verbatim>\<open>updatedKeys[0] || ""\<close>: the first key, or \<^verbatim>\<open>""\<close> when there is none or it is falsy.\<close>

definition first_or_empty :: "jsstring list \<Rightarrow> jsstring" where
  "first_or_empty updatedKeys =
     (case updatedKeys of [] \<Rightarrow> [] | k # _ \<Rightarrow> if k = [] then [] else k)"

definition handleDeleteApiKey :: "jsstring \<Rightarrow> Home \<Rightarrow> Home" where
  "handleDeleteApiKey keyToDelete st =
     (let updatedKeys = filter (\<lambda>key. key \<noteq> keyToDelete) (apiKeys st)
      in st\<lparr>apiKeys := updatedKeys,
            selectedApiKey :=
              (if selectedApiKey st = keyToDelete then first_or_empty updatedKeys
               else selectedApiKey st)\<rparr>)"

section \<open>Questions\<close>

text \<open>
  An index outside the array makes \<^verbatim>\<open>newQuestions[index]\<close> undefined and the property
  access a TypeError: \<open>None\<close> in \<open>updateQuestion\<close>, the promise \<open>Rejected\<close> in
  \<open>processQuestion\<close>.
\<close>

definition updateQuestion :: "nat \<Rightarrow> jsstring \<Rightarrow> Home \<Rightarrow> Home option" where
  "updateQuestion index q st =
     (if index < length (questions st) then
        Some (st\<lparr>questions := (questions st)[index := (questions st ! index)\<lparr>question := q\<rparr>]\<rparr>)
      else None)"

definition required_message :: jsstring where
  "required_message =
     [0x41, 0x50, 0x49, 0x20, 0xD0A4, 0xC640, 0x20, 0xC9C8, 0xBB38, 0xC744, 0x20, 0xBAA8,
      0xB450, 0x20, 0xC785, 0xB825, 0xD574, 0xC8FC, 0xC138, 0xC694, 0x2E]"

definition unknown_error_message :: jsstring where
  "unknown_error_message =
     [0xC54C, 0x20, 0xC218, 0x20, 0xC5C6, 0xB294, 0x20, 0xC624, 0xB958, 0xAC00, 0x20,
      0xBC1C, 0xC0DD, 0xD588, 0xC2B5, 0xB2C8, 0xB2E4, 0x2E]"

datatype promise = Fulfilled | Rejected | Awaiting nat

text \<open>
  \<^verbatim>\<open>processQuestion\<close> up to its \<^verbatim>\<open>await\<close> (page.tsx:95-113): the check, or the slot set
  to loading and the call of \<^verbatim>\<open>generateContent\<close> issued with the captured key and the
  slot's question. The promise returned is fulfilled at once, or pending on the call.
\<close>

definition processQuestion :: "nat \<Rightarrow> Home \<Rightarrow> promise \<times> Home" where
  "processQuestion index st =
     (if length (questions st) \<le> index then (Rejected, st)
      else if trim (selectedApiKey st) = [] \<or> trim (question (questions st ! index)) = [] then
        (Fulfilled,
         st\<lparr>questions :=
              (questions st)[index := (questions st ! index)\<lparr>error := Some required_message\<rparr>]\<rparr>)
      else
        (Awaiting (length (calls st)),
         st\<lparr>questions :=
              (questions st)[index :=
                (questions st ! index)\<lparr>isLoading := True, result := JNull, error := None\<rparr>],
            calls :=
              calls st @
                [\<lparr>call_index = index, call_apiKey = selectedApiKey st,
                  call_question = question (questions st ! index)\<rparr>],
            awaiting := awaiting st @ [length (calls st)]\<rparr>))"

text \<open>
  What the awaited call delivers: the response text, or a thrown value (a rejected request,
  or \<^verbatim>\<open>response.text()\<close> throwing). A thrown value is an \<^verbatim>\<open>Error\<close> with its message,
  or anything else.
\<close>

datatype thrown = ErrorObject jsstring | OtherValue

datatype response = ResponseText jsstring | Throws thrown

text \<open>
  The rest of the \<^verbatim>\<open>try\<close> block (page.tsx:114-120). The message of the SyntaxError of
  \<^verbatim>\<open>JSON.parse\<close> depends on the engine: \<open>syntaxError\<close> gives it for the rejected text.
\<close>

definition try_block :: "(jsstring \<Rightarrow> jsstring) \<Rightarrow> response \<Rightarrow> thrown + json" where
  "try_block syntaxError r =
     (case r of
        Throws err \<Rightarrow> Inl err
      | ResponseText responseText \<Rightarrow>
          (case JSON_parse (cleanJsonStr responseText) of
             None \<Rightarrow> Inl (ErrorObject (syntaxError (cleanJsonStr responseText)))
           | Some data \<Rightarrow> Inr data))"

definition catch_message :: "thrown \<Rightarrow> jsstring" where
  "catch_message err = (case err of ErrorObject message \<Rightarrow> message | OtherValue \<Rightarrow> unknown_error_message)"

text \<open>
  \<^verbatim>\<open>processQuestion\<close> from its \<^verbatim>\<open>await\<close> on (page.tsx:114-130), for the call \<open>c\<close>:
  \<open>None\<close> when no continuation waits for \<open>c\<close>. The continuation holds the slot index
  the call was issued for.
\<close>

definition processQuestion_resume ::
    "(jsstring \<Rightarrow> jsstring) \<Rightarrow> nat \<Rightarrow> response \<Rightarrow> Home \<Rightarrow> Home option" where
  "processQuestion_resume syntaxError c r st =
     (if c \<in> set (awaiting st) \<and> c < length (calls st) then
        (let index = call_index (calls st ! c)
         in Some (st\<lparr>questions :=
                      (questions st)[index :=
                        (case try_block syntaxError r of
                           Inr data \<Rightarrow> (questions st ! index)\<lparr>result := data, error := None\<rparr>
                         | Inl err \<Rightarrow> (questions st ! index)\<lparr>error := Some (catch_message err)\<rparr>)
                        \<lparr>isLoading := False\<rparr>],
                    awaiting := filter (\<lambda>c'. c' \<noteq> c) (awaiting st)\<rparr>))
      else None)"

section \<open>Running all questions\<close>

definition alert_select_key :: jsstring where
  "alert_select_key =
     [0x41, 0x50, 0x49, 0x20, 0xD0A4, 0xB97C, 0x20, 0xC120, 0xD0DD, 0xD574, 0xC8FC, 0xC138,
      0xC694, 0x2E]"

definition alert_no_question :: jsstring where
  "alert_no_question =
     [0xCD5C, 0xC18C, 0x20, 0xD558, 0xB098, 0xC758, 0x20, 0xC9C8, 0xBB38, 0xC744, 0x20,
      0xC785, 0xB825, 0xD574, 0xC8FC, 0xC138, 0xC694, 0x2E]"

text \<open>The callback of \<^verbatim>\<open>questions.map\<close> (page.tsx:147-152), applied index by index.\<close>

fun submit_slots :: "nat list \<Rightarrow> Home \<Rightarrow> promise list \<times> Home" where
  "submit_slots [] st = ([], st)"
| "submit_slots (index # rest) st =
     (case (if trim (question (questions st ! index)) \<noteq> [] then processQuestion index st
            else (Fulfilled, st)) of
        (p, st1) \<Rightarrow> (case submit_slots rest st1 of (ps, st2) \<Rightarrow> (p # ps, st2)))"

text \<open>
  \<^verbatim>\<open>handleSubmitAll\<close> up to \<^verbatim>\<open>await Promise.all(promises)\<close>: the alert shown, if any,
  the promises it waits for, and the state.
\<close>

definition handleSubmitAll :: "Home \<Rightarrow> jsstring option \<times> promise list \<times> Home" where
  "handleSubmitAll st =
     (if trim (selectedApiKey st) = [] then (Some alert_select_key, [], st)
      else if filter (\<lambda>q. trim (question q) \<noteq> []) (questions st) = [] then
        (Some alert_no_question, [], st)
      else
        (case submit_slots [0..<length (questions st)] st of
           (promises, st1) \<Rightarrow> (None, promises, st1)))"

text \<open>
  The promise of a \<open>processQuestion\<close> that reached its \<^verbatim>\<open>await\<close> is fulfilled when the
  call has been answered (the \<^verbatim>\<open>catch\<close> clause lets nothing escape).
  \<^verbatim>\<open>Promise.all(promises)\<close> is fulfilled once every one of the promises is.
\<close>

definition fulfilled :: "Home \<Rightarrow> promise \<Rightarrow> bool" where
  "fulfilled st p =
     (case p of Fulfilled \<Rightarrow> True | Rejected \<Rightarrow> False | Awaiting c \<Rightarrow> c \<notin> set (awaiting st))"

definition Promise_all_fulfilled :: "Home \<Rightarrow> promise list \<Rightarrow> bool" where
  "Promise_all_fulfilled st promises = list_all (fulfilled st) promises"

section \<open>Sequences of user actions and responses\<close>

datatype event =
    TypeApiKey jsstring
  | AddApiKey
  | DeleteApiKey jsstring
  | SelectApiKey jsstring
  | EditQuestion nat jsstring
  | RunOne nat
  | RunAll
  | Respond nat response

fun step :: "(jsstring \<Rightarrow> jsstring) \<Rightarrow> event \<Rightarrow> Home \<Rightarrow> Home option" where
  "step syntaxError (TypeApiKey v) st = Some (setNewApiKey v st)"
| "step syntaxError AddApiKey st = Some (handleAddApiKey st)"
| "step syntaxError (DeleteApiKey k) st = Some (handleDeleteApiKey k st)"
| "step syntaxError (SelectApiKey k) st = Some (setSelectedApiKey k st)"
| "step syntaxError (EditQuestion index q) st = updateQuestion index q st"
| "step syntaxError (RunOne index) st =
     (case processQuestion index st of (Rejected, _) \<Rightarrow> None | (_, st1) \<Rightarrow> Some st1)"
| "step syntaxError RunAll st = (case handleSubmitAll st of (_, _, st1) \<Rightarrow> Some st1)"
| "step syntaxError (Respond c r) st = processQuestion_resume syntaxError c r st"

fun run :: "(jsstring \<Rightarrow> jsstring) \<Rightarrow> event list \<Rightarrow> Home \<Rightarrow> Home option" where
  "run syntaxError [] st = Some st"
| "run syntaxError (e # es) st =
     (case step syntaxError e st of None \<Rightarrow> None | Some st1 \<Rightarrow> run syntaxError es st1)"

text \<open>
  Adding a sequence of raw inputs, one after the other, and the credentials such a
  sequence names: the trimmed inputs that are not empty, each at its first occurrence.
\<close>

definition addCredentials :: "jsstring list \<Rightarrow> Home \<Rightarrow> Home" where
  "addCredentials raws st = foldl (\<lambda>s raw. addCredential raw s) st raws"

definition first_insertions :: "jsstring list \<Rightarrow> jsstring list" where
  "first_insertions raws = rev (remdups (rev (filter (\<lambda>k. k \<noteq> []) (map trim raws))))"

section \<open>Example data\<close>

text \<open>
  The response of the specification's example, its six-field object between a
  \<^verbatim>\<open>```json\<close> fence and a closing fence, each on a line of its own (the \<^verbatim>\<open>\n\<close> of
  the example is a line feed); the same object between fences without a tag; and the
  record the example is to decode to.
\<close>

definition example_body :: jsstring where
  \<open>example_body =
     js ''{"title":"Harry Potter","author":"J.K. Rowling","publisher":"","publicationYear":"","genre":"","language":""}''\<close>

definition example_response :: jsstring where
  "example_response = js ''```json'' @ [0x0A] @ example_body @ [0x0A] @ js ''```''"

definition untagged_response :: jsstring where
  "untagged_response = js ''```'' @ [0x0A] @ example_body @ [0x0A] @ js ''```''"

definition example_BookInfo :: json where
  "example_BookInfo =
     JObject [(js ''title'', JString (js ''Harry Potter'')),
              (js ''author'', JString (js ''J.K. Rowling'')),
              (js ''publisher'', JString []), (js ''publicationYear'', JString []),
              (js ''genre'', JString []), (js ''language'', JString [])]"

text \<open>The page after the key \<^verbatim>\<open>k1\<close> has been added, and with the questions of the
  run-all example.\<close>

definition Home_k1 :: Home where
  "Home_k1 = addCredential (js ''k1'') Home_initial"

definition Home_queries :: Home where
  "Home_queries =
     Home_k1\<lparr>questions := [empty_slot (js ''query A''), empty_slot [], empty_slot (js ''query B''),
                            empty_slot [], empty_slot []]\<rparr>"

section \<open>The parser consumes its input\<close>

text \<open>
  Every successful parse leaves a strictly shorter rest. Hence the length tests in
  \<open>parse_elements\<close> and \<open>parse_members\<close> always succeed, and both functions satisfy
  their equations without the tests.
\<close>

lemma string_chars_shorter:
  "string_chars cs = Some (s, r) \<Longrightarrow> length r < length cs"
  by (induction cs arbitrary: s r rule: string_chars.induct)
     (fastforce split: if_splits list.splits option.splits)+

lemma skip_ws_shorter: "skip_ws cs = c # rest \<Longrightarrow> length rest < length cs"
proof -
  assume "skip_ws cs = c # rest"
  then have "length (c # rest) \<le> length cs"
    unfolding skip_ws_def by (metis length_dropWhile_le)
  then show ?thesis by simp
qed

lemma parse_literal_shorter: "parse_literal cs = Some (v, r) \<Longrightarrow> length r < length cs"
  by (auto simp add: parse_literal_def js_def prefix_def split: if_splits)

lemma number_int_shorter: "number_int cs = Some (l, r) \<Longrightarrow> length r < length cs"
  by (auto simp add: number_int_def less_Suc_eq_le length_dropWhile_le split: list.splits if_splits)

lemma number_frac_shorter: "number_frac cs = Some (l, r) \<Longrightarrow> length r \<le> length cs"
  by (auto simp add: number_frac_def le_SucI length_dropWhile_le split: list.splits if_splits)

lemma number_sign_shorter: "number_sign cs = (sg, r) \<Longrightarrow> length r \<le> length cs"
  by (auto simp add: number_sign_def split: list.splits if_splits)

lemma number_exp_shorter: "number_exp cs = Some (l, r) \<Longrightarrow> length r \<le> length cs"
proof -
  assume a: "number_exp cs = Some (l, r)"
  show ?thesis
  proof (cases cs)
    case Nil
    with a show ?thesis by (simp add: number_exp_def)
  next
    case (Cons e r0)
    show ?thesis
    proof (cases "e = 0x65 \<or> e = 0x45")
      case False
      with a Cons show ?thesis by (simp add: number_exp_def)
    next
      case True
      obtain sg r1 where s: "number_sign r0 = (sg, r1)" by (cases "number_sign r0")
      from a Cons True s have "r = dropWhile is_digit r1"
        by (auto simp add: number_exp_def split: if_splits)
      then have "length r \<le> length r1" by (simp add: length_dropWhile_le)
      also have "\<dots> \<le> length r0" by (rule number_sign_shorter [OF s])
      finally show ?thesis using Cons by simp
    qed
  qed
qed

lemma parse_number_shorter: "parse_number cs = Some (l, r) \<Longrightarrow> length r < length cs"
proof -
  assume a: "parse_number cs = Some (l, r)"
  obtain neg r0 where n: "(case cs of [] \<Rightarrow> ([], cs) | m # r \<Rightarrow> if m = 0x2D then ([m], r) else ([], cs)) = (neg, r0)"
    by (cases "(case cs of [] \<Rightarrow> ([], cs) | m # r \<Rightarrow> if m = 0x2D then ([m], r) else ([], cs))")
  then have l0: "length r0 \<le> length cs" by (auto split: list.splits if_splits)
  from a n obtain ip r1 fp r2 ep where
    "number_int r0 = Some (ip, r1)" "number_frac r1 = Some (fp, r2)" "number_exp r2 = Some (ep, r)"
    by (auto simp add: parse_number_def split: option.splits)
  from number_int_shorter [OF this(1)] number_frac_shorter [OF this(2)] number_exp_shorter [OF this(3)] l0
  show ?thesis by simp
qed

declare parse_value.simps [simp del] parse_elements.simps [simp del] parse_members.simps [simp del]

lemma parse_shorter:
  "(\<forall>v r. parse_value cs = Some (v, r) \<longrightarrow> length r < length cs) \<and>
   (\<forall>vs r. parse_elements cs = Some (vs, r) \<longrightarrow> length r < length cs) \<and>
   (\<forall>ms r. parse_members cs = Some (ms, r) \<longrightarrow> length r < length cs)"
proof (induction "length cs" arbitrary: cs rule: less_induct)
  case less
  note IH = less.hyps
  have val: "length r < length cs" if a: "parse_value cs = Some (v, r)" for v r
  proof (cases "skip_ws cs")
    case Nil
    with a show ?thesis by (simp add: parse_value.simps [of cs])
  next
    case (Cons c rest)
    have rest: "length rest < length cs" by (rule skip_ws_shorter [OF Cons])
    consider (arr) "c = 0x5B" | (obj) "c \<noteq> 0x5B" "c = 0x7B"
      | (str) "c \<noteq> 0x5B" "c \<noteq> 0x7B" "c = 0x22"
      | (lit) "c \<noteq> 0x5B" "c \<noteq> 0x7B" "c \<noteq> 0x22" "c = 0x6E \<or> c = 0x74 \<or> c = 0x66"
      | (num) "c \<noteq> 0x5B" "c \<noteq> 0x7B" "c \<noteq> 0x22" "\<not> (c = 0x6E \<or> c = 0x74 \<or> c = 0x66)"
      by blast
    then show ?thesis
    proof cases
      case arr
      show ?thesis
      proof (cases "skip_ws rest")
        case Nil
        with a Cons arr show ?thesis by (simp add: parse_value.simps [of cs])
      next
        case (Cons d rest1)
        note inner = this
        show ?thesis
        proof (cases "d = 0x5D")
          case True
          with a \<open>skip_ws cs = c # rest\<close> arr inner have "r = rest1"
            by (simp add: parse_value.simps [of cs])
          with skip_ws_shorter [OF inner] rest show ?thesis by simp
        next
          case False
          with a \<open>skip_ws cs = c # rest\<close> arr inner obtain vs where "parse_elements rest = Some (vs, r)"
            by (auto simp add: parse_value.simps [of cs] split: option.splits)
          with IH [OF rest] rest show ?thesis by fastforce
        qed
      qed
    next
      case obj
      show ?thesis
      proof (cases "skip_ws rest")
        case Nil
        with a Cons obj show ?thesis by (simp add: parse_value.simps [of cs])
      next
        case (Cons d rest1)
        note inner = this
        show ?thesis
        proof (cases "d = 0x7D")
          case True
          with a \<open>skip_ws cs = c # rest\<close> obj inner have "r = rest1"
            by (simp add: parse_value.simps [of cs])
          with skip_ws_shorter [OF inner] rest show ?thesis by simp
        next
          case False
          with a \<open>skip_ws cs = c # rest\<close> obj inner obtain ms where "parse_members rest = Some (ms, r)"
            by (auto simp add: parse_value.simps [of cs] split: option.splits)
          with IH [OF rest] rest show ?thesis by fastforce
        qed
      qed
    next
      case str
      with a Cons obtain s where "string_chars rest = Some (s, r)"
        by (auto simp add: parse_value.simps [of cs] split: option.splits)
      from string_chars_shorter [OF this] rest show ?thesis by simp
    next
      case lit
      with a Cons have "parse_literal (c # rest) = Some (v, r)"
        by (simp add: parse_value.simps [of cs])
      from parse_literal_shorter [OF this] rest show ?thesis by simp
    next
      case num
      with a Cons obtain n where "parse_number (c # rest) = Some (n, r)"
        by (auto simp add: parse_value.simps [of cs] split: option.splits)
      from parse_number_shorter [OF this] rest show ?thesis by simp
    qed
  qed
  have elems: "length r < length cs" if a: "parse_elements cs = Some (vs, r)" for vs r
  proof -
    from a obtain v r0 where v: "parse_value cs = Some (v, r0)"
      by (auto simp add: parse_elements.simps [of cs] split: option.splits)
    from val [OF v] have r0: "length r0 < length cs" .
    from a v obtain c r1 where s: "skip_ws r0 = c # r1"
      by (auto simp add: parse_elements.simps [of cs] split: list.splits)
    from skip_ws_shorter [OF s] r0 have r1: "length r1 < length cs" by simp
    show ?thesis
    proof (cases "c = 0x5D")
      case True
      with a v s have "r = r1" by (simp add: parse_elements.simps [of cs])
      with r1 show ?thesis by simp
    next
      case False
      with a v s r1 obtain vs' where "parse_elements r1 = Some (vs', r)"
        by (auto simp add: parse_elements.simps [of cs] split: option.splits if_splits)
      with IH [OF r1] r1 show ?thesis by fastforce
    qed
  qed
  have membs: "length r < length cs" if a: "parse_members cs = Some (ms, r)" for ms r
  proof -
    from a obtain q r0 where s0: "skip_ws cs = q # r0" and q: "q = 0x22"
      by (auto simp add: parse_members.simps [of cs] split: list.splits if_splits)
    from a s0 q obtain k r1 where k: "string_chars r0 = Some (k, r1)"
      by (auto simp add: parse_members.simps [of cs] split: option.splits)
    from a s0 q k obtain c r2 where s1: "skip_ws r1 = c # r2" and c: "c = 0x3A"
      by (auto simp add: parse_members.simps [of cs] split: list.splits if_splits)
    from skip_ws_shorter [OF s0] string_chars_shorter [OF k] skip_ws_shorter [OF s1]
    have r2: "length r2 < length cs" by simp
    from a s0 q k s1 c r2 obtain v r3 where v: "parse_value r2 = Some (v, r3)"
      by (auto simp add: parse_members.simps [of cs] split: option.splits)
    from IH [OF r2] v have r3: "length r3 < length r2" by fastforce
    from a s0 q k s1 c r2 v obtain e r4 where s3: "skip_ws r3 = e # r4"
      by (auto simp add: parse_members.simps [of cs] split: list.splits)
    from skip_ws_shorter [OF s3] r3 r2 have r4: "length r4 < length cs" by simp
    show ?thesis
    proof (cases "e = 0x7D")
      case True
      with a s0 q k s1 c r2 v s3 have "r = r4" by (simp add: parse_members.simps [of cs])
      with r4 show ?thesis by simp
    next
      case False
      with a s0 q k s1 c r2 v s3 r4 obtain ms' where "parse_members r4 = Some (ms', r)"
        by (auto simp add: parse_members.simps [of cs] split: option.splits if_splits)
      with IH [OF r4] r4 show ?thesis by fastforce
    qed
  qed
  from val elems membs show ?case by blast
qed


lemma parse_value_shorter: "parse_value cs = Some (v, r) \<Longrightarrow> length r < length cs"
  using parse_shorter [of cs] by blast

lemma parse_elements_unguarded:
  "parse_elements cs =
     (case parse_value cs of
        None \<Rightarrow> None
      | Some (v, r) \<Rightarrow>
          (case skip_ws r of
             [] \<Rightarrow> None
           | c # r1 \<Rightarrow>
               if c = 0x5D then Some ([v], r1)
               else if c = 0x2C then
                 (case parse_elements r1 of
                    None \<Rightarrow> None
                  | Some (vs, r2) \<Rightarrow> Some (v # vs, r2))
               else None))"
proof (cases "parse_value cs")
  case None
  then show ?thesis by (simp add: parse_elements.simps [of cs])
next
  case (Some p)
  obtain v r where p: "p = (v, r)" by (cases p)
  show ?thesis
  proof (cases "skip_ws r")
    case Nil
    with Some p show ?thesis by (simp add: parse_elements.simps [of cs])
  next
    case (Cons c r1)
    from parse_value_shorter Some p have "length r < length cs" by simp
    with skip_ws_shorter [OF Cons] have "length r1 < length cs" by simp
    with Some p Cons show ?thesis by (simp add: parse_elements.simps [of cs])
  qed
qed

lemma parse_members_unguarded:
  "parse_members cs =
     (case skip_ws cs of
        [] \<Rightarrow> None
      | q # r0 \<Rightarrow>
          if q = 0x22 then
            (case string_chars r0 of
               None \<Rightarrow> None
             | Some (k, r1) \<Rightarrow>
                 (case skip_ws r1 of
                    [] \<Rightarrow> None
                  | c # r2 \<Rightarrow>
                      if c = 0x3A then
                        (case parse_value r2 of
                           None \<Rightarrow> None
                         | Some (v, r3) \<Rightarrow>
                             (case skip_ws r3 of
                                [] \<Rightarrow> None
                              | e # r4 \<Rightarrow>
                                  if e = 0x7D then Some ([(k, v)], r4)
                                  else if e = 0x2C then
                                    (case parse_members r4 of
                                       None \<Rightarrow> None
                                     | Some (ms, r5) \<Rightarrow> Some ((k, v) # ms, r5))
                                  else None))
                      else None))
          else None)"
proof -
  have 1: "length r2 < length cs"
    if "skip_ws cs = q # r0" "string_chars r0 = Some (k, r1)" "skip_ws r1 = c # r2"
    for q r0 k r1 c r2
    using skip_ws_shorter [OF that(1)] string_chars_shorter [OF that(2)]
      skip_ws_shorter [OF that(3)] by simp
  have 2: "length r4 < length cs"
    if "length r2 < length cs" "parse_value r2 = Some (v, r3)" "skip_ws r3 = e # r4"
    for r2 v r3 e r4
    using that(1) parse_value_shorter [OF that(2)] skip_ws_shorter [OF that(3)] by simp
  show ?thesis
    by (subst parse_members.simps)
       (auto split: list.splits option.splits dest: 1 2)
qed

section \<open>Properties of the API key list\<close>

lemma apiKeys_addCredential:
  "apiKeys (addCredential raw st) =
     (if trim raw \<noteq> [] \<and> trim raw \<notin> set (apiKeys st) then apiKeys st @ [trim raw]
      else apiKeys st)"
  by (simp add: addCredential_def handleAddApiKey_def setNewApiKey_def)

lemma first_insertions_snoc:
  "first_insertions (raws @ [raw]) =
     (if trim raw \<noteq> [] \<and> trim raw \<notin> set (first_insertions raws)
      then first_insertions raws @ [trim raw] else first_insertions raws)"
  by (auto simp add: first_insertions_def)

lemma apiKeys_addCredentials:
  "apiKeys st = [] \<Longrightarrow> apiKeys (addCredentials raws st) = first_insertions raws"
proof (induction raws rule: rev_induct)
  case Nil
  then show ?case by (simp add: addCredentials_def first_insertions_def)
next
  case (snoc raw raws)
  then show ?case
    by (simp add: addCredentials_def apiKeys_addCredential first_insertions_snoc)
qed

lemma distinct_first_insertions: "distinct (first_insertions raws)"
  by (simp add: first_insertions_def)

text \<open>
  C8. Starting from the empty key list, any sequence of \<open>addCredential\<close> calls leaves a
  list without duplicates that holds the trimmed non-empty inputs in the order of their
  first insertion. A single call does nothing but keep the typed text when the trimmed
  input is empty or already a key; otherwise it appends the trimmed input, selects it and
  clears the input buffer.
\<close>

theorem addCredential_sequence:
  "(apiKeys st = [] \<longrightarrow>
      distinct (apiKeys (addCredentials raws st)) \<and>
      apiKeys (addCredentials raws st) = first_insertions raws) \<and>
   (trim raw = [] \<or> trim raw \<in> set (apiKeys st) \<longrightarrow>
      addCredential raw st = st\<lparr>newApiKey := raw\<rparr>) \<and>
   (trim raw \<noteq> [] \<and> trim raw \<notin> set (apiKeys st) \<longrightarrow>
      apiKeys (addCredential raw st) = apiKeys st @ [trim raw] \<and>
      selectedApiKey (addCredential raw st) = trim raw \<and>
      newApiKey (addCredential raw st) = [])"
  by (auto simp add: apiKeys_addCredentials distinct_first_insertions
      addCredential_def handleAddApiKey_def setNewApiKey_def)

theorem addCredential_sequence_witness:
  "apiKeys Home_initial = [] \<and>
   apiKeys (addCredentials
              [js '' k1 '', js ''k2'', js ''k1'', js ''  '', js ''k3'', js ''k2 '']
              Home_initial)
     = [js ''k1'', js ''k2'', js ''k3''] \<and>
   addCredential (js ''  '') Home_initial = Home_initial\<lparr>newApiKey := js ''  ''\<rparr> \<and>
   apiKeys (addCredential (js '' k1 '') Home_initial) = [js ''k1'']"
  using addCredential_sequence
      [of Home_initial "[js '' k1 '', js ''k2'', js ''k1'', js ''  '', js ''k3'', js ''k2 '']"
          "js ''  ''"]
    addCredential_sequence [of Home_initial "[]" "js '' k1 ''"]
  by (simp add: Home_initial_def first_insertions_def trim_def js_def isWhiteSpace_def)

text \<open>
  C9. Deleting the selected key removes it from the list and selects the first key that
  remains, or the empty selection when none remains.
\<close>

theorem delete_active_credential:
  "selectedApiKey st = k \<Longrightarrow>
     apiKeys (handleDeleteApiKey k st) = filter (\<lambda>key. key \<noteq> k) (apiKeys st) \<and>
     k \<notin> set (apiKeys (handleDeleteApiKey k st)) \<and>
     selectedApiKey (handleDeleteApiKey k st) =
       (case apiKeys (handleDeleteApiKey k st) of [] \<Rightarrow> [] | first # _ \<Rightarrow> first)"
  by (auto simp add: handleDeleteApiKey_def first_or_empty_def Let_def split: list.splits)

theorem delete_active_credential_witness:
  "apiKeys (handleDeleteApiKey (js ''k2'')
      (Home_initial\<lparr>apiKeys := [js ''k1'', js ''k2'', js ''k3''], selectedApiKey := js ''k2''\<rparr>))
     = [js ''k1'', js ''k3''] \<and>
   selectedApiKey (handleDeleteApiKey (js ''k2'')
      (Home_initial\<lparr>apiKeys := [js ''k1'', js ''k2'', js ''k3''], selectedApiKey := js ''k2''\<rparr>))
     = js ''k1'' \<and>
   apiKeys (handleDeleteApiKey (js ''k1'')
      (Home_initial\<lparr>apiKeys := [js ''k1''], selectedApiKey := js ''k1''\<rparr>)) = [] \<and>
   selectedApiKey (handleDeleteApiKey (js ''k1'')
      (Home_initial\<lparr>apiKeys := [js ''k1''], selectedApiKey := js ''k1''\<rparr>)) = []"
  using delete_active_credential
      [of "Home_initial\<lparr>apiKeys := [js ''k1'', js ''k2'', js ''k3''], selectedApiKey := js ''k2''\<rparr>"
          "js ''k2''"]
    delete_active_credential
      [of "Home_initial\<lparr>apiKeys := [js ''k1''], selectedApiKey := js ''k1''\<rparr>" "js ''k1''"]
  by (simp add: js_def)

text \<open>
  C10. Deleting a key that is in the list but is not the selected one removes it, keeps
  the other keys in their order and leaves the selection as it was.
\<close>

theorem delete_inactive_credential:
  "k \<in> set (apiKeys st) \<Longrightarrow> selectedApiKey st \<noteq> k \<Longrightarrow>
     apiKeys (handleDeleteApiKey k st) = filter (\<lambda>key. key \<noteq> k) (apiKeys st) \<and>
     k \<notin> set (apiKeys (handleDeleteApiKey k st)) \<and>
     set (apiKeys (handleDeleteApiKey k st)) = set (apiKeys st) - {k} \<and>
     subseq (apiKeys (handleDeleteApiKey k st)) (apiKeys st) \<and>
     selectedApiKey (handleDeleteApiKey k st) = selectedApiKey st"
  by (auto simp add: handleDeleteApiKey_def Let_def)

theorem delete_inactive_credential_witness:
  "js ''k2'' \<in> set [js ''k1'', js ''k2'', js ''k3''] \<and> js ''k3'' \<noteq> js ''k2'' \<and>
   apiKeys (handleDeleteApiKey (js ''k2'')
      (Home_initial\<lparr>apiKeys := [js ''k1'', js ''k2'', js ''k3''], selectedApiKey := js ''k3''\<rparr>))
     = [js ''k1'', js ''k3''] \<and>
   selectedApiKey (handleDeleteApiKey (js ''k2'')
      (Home_initial\<lparr>apiKeys := [js ''k1'', js ''k2'', js ''k3''], selectedApiKey := js ''k3''\<rparr>))
     = js ''k3''"
  using delete_inactive_credential
      [of "js ''k2''"
          "Home_initial\<lparr>apiKeys := [js ''k1'', js ''k2'', js ''k3''], selectedApiKey := js ''k3''\<rparr>"]
  by (simp add: js_def)

section \<open>Evaluations used by the examples\<close>

lemma trim_Nil: "trim [] = []"
  by (simp add: trim_def)

lemma trim_k1: "trim (js ''k1'') = js ''k1''"
  by code_simp

lemma k1_not_empty: "js ''k1'' \<noteq> []"
  by code_simp

lemma trim_initial_question: "trim initial_question \<noteq> []"
  by code_simp

lemma trim_query_A: "trim (js ''query A'') \<noteq> []"
  by code_simp

lemma trim_query_B: "trim (js ''query B'') \<noteq> []"
  by code_simp

lemma Home_k1_eq:
  "Home_k1 = Home_initial\<lparr>apiKeys := [js ''k1''], selectedApiKey := js ''k1''\<rparr>"
  by (simp add: Home_k1_def addCredential_def handleAddApiKey_def setNewApiKey_def
      Home_initial_def trim_k1 k1_not_empty)

lemma parse_example: "JSON_parse (cleanJsonStr example_response) = Some example_BookInfo"
  by code_simp

lemma try_block_example:
  "try_block syntaxError (ResponseText example_response) = Inr example_BookInfo"
  by (simp add: try_block_def parse_example)


section \<open>What the events leave in place\<close>

text \<open>
  No event removes a call from the log or a slot from the page; a call stays awaited
  until it is answered; and a slot's result, once absent, stays absent until a call of
  that slot is answered.
\<close>

lemma processQuestion_frame:
  assumes "processQuestion index st = (p, st1)"
  shows "(\<exists>xs. calls st1 = calls st @ xs) \<and>
         length (questions st1) = length (questions st) \<and>
         set (awaiting st) \<subseteq> set (awaiting st1) \<and>
         (\<forall>j < length (questions st).
            result (questions st1 ! j) = JNull \<or>
            result (questions st1 ! j) = result (questions st ! j))"
  using assms
  by (auto simp add: processQuestion_def nth_list_update split: if_splits)

lemma submit_slots_frame:
  "submit_slots slots st = (ps, st1) \<Longrightarrow>
     (\<exists>xs. calls st1 = calls st @ xs) \<and>
     length (questions st1) = length (questions st) \<and>
     set (awaiting st) \<subseteq> set (awaiting st1) \<and>
     (\<forall>j < length (questions st).
        result (questions st1 ! j) = JNull \<or>
        result (questions st1 ! j) = result (questions st ! j))"
proof (induction slots arbitrary: st ps st1)
  case Nil
  then show ?case by simp
next
  case (Cons index rest)
  obtain p sa where a: "(if trim (question (questions st ! index)) \<noteq> []
      then processQuestion index st else (Fulfilled, st)) = (p, sa)"
    by (cases "(if trim (question (questions st ! index)) \<noteq> []
      then processQuestion index st else (Fulfilled, st))")
  obtain ps' sb where b: "submit_slots rest sa = (ps', sb)"
    by (cases "submit_slots rest sa")
  from Cons.prems a b have st1: "st1 = sb" by simp
  have fa: "(\<exists>xs. calls sa = calls st @ xs) \<and>
         length (questions sa) = length (questions st) \<and>
         set (awaiting st) \<subseteq> set (awaiting sa) \<and>
         (\<forall>j < length (questions st).
            result (questions sa ! j) = JNull \<or>
            result (questions sa ! j) = result (questions st ! j))"
  proof (cases "trim (question (questions st ! index)) \<noteq> []")
    case True
    with a have "processQuestion index st = (p, sa)" by simp
    then show ?thesis by (rule processQuestion_frame)
  next
    case False
    with a show ?thesis by simp
  qed
  from Cons.IH [OF b] fa show ?case
    unfolding st1 by (auto; metis)
qed

lemma handleSubmitAll_state:
  assumes "handleSubmitAll st = (a, ps, st1)"
  shows "st1 = st \<or> submit_slots [0..<length (questions st)] st = (ps, st1)"
  using assms by (auto simp add: handleSubmitAll_def split: if_splits prod.splits)

lemma step_frame:
  assumes "step syntaxError e st = Some st1"
  shows "(\<exists>xs. calls st1 = calls st @ xs) \<and>
         length (questions st1) = length (questions st) \<and>
         (\<forall>c. c \<in> set (awaiting st) \<longrightarrow> (\<forall>r. e \<noteq> Respond c r) \<longrightarrow> c \<in> set (awaiting st1))"
proof (cases e)
  case (RunOne index)
  obtain p sa where a: "processQuestion index st = (p, sa)" by (cases "processQuestion index st")
  with assms RunOne have "st1 = sa" by (auto split: promise.splits)
  with processQuestion_frame [OF a] show ?thesis by auto
next
  case RunAll
  obtain a ps sa where h: "handleSubmitAll st = (a, ps, sa)"
    by (cases "handleSubmitAll st")
  with assms RunAll have "st1 = sa" by simp
  with handleSubmitAll_state [OF h] submit_slots_frame [of "[0..<length (questions st)]" st ps sa]
  show ?thesis by auto
next
  case (Respond c r)
  with assms show ?thesis
    by (auto simp add: processQuestion_resume_def Let_def split: if_splits)
qed (use assms in \<open>auto simp add: setNewApiKey_def handleAddApiKey_def handleDeleteApiKey_def
      setSelectedApiKey_def updateQuestion_def Let_def split: if_splits\<close>)

lemma step_result:
  assumes "step syntaxError e st = Some st1"
    and "index < length (questions st)"
    and "result (questions st ! index) = JNull"
    and "\<forall>c r. e = Respond c r \<longrightarrow> call_index (calls st ! c) \<noteq> index"
  shows "result (questions st1 ! index) = JNull"
proof (cases e)
  case (RunOne i)
  obtain p sa where a: "processQuestion i st = (p, sa)" by (cases "processQuestion i st")
  with assms RunOne have "st1 = sa" by (auto split: promise.splits)
  with processQuestion_frame [OF a] assms(2,3) show ?thesis by auto
next
  case RunAll
  obtain a ps sa where h: "handleSubmitAll st = (a, ps, sa)"
    by (cases "handleSubmitAll st")
  with assms RunAll have "st1 = sa" by simp
  with handleSubmitAll_state [OF h] submit_slots_frame [of "[0..<length (questions st)]" st ps sa]
    assms(2,3)
  show ?thesis by (auto; metis)
next
  case (Respond c r)
  with assms show ?thesis
    by (auto simp add: processQuestion_resume_def Let_def split: if_splits)
next
  case (EditQuestion i q)
  with assms show ?thesis
    by (auto simp add: updateQuestion_def nth_list_update split: if_splits)
qed (use assms in \<open>auto simp add: setNewApiKey_def handleAddApiKey_def handleDeleteApiKey_def
      setSelectedApiKey_def Let_def split: if_splits\<close>)

lemma run_frame:
  "run syntaxError es st = Some st1 \<Longrightarrow>
     (\<exists>xs. calls st1 = calls st @ xs) \<and>
     length (questions st1) = length (questions st) \<and>
     (\<forall>c. c \<in> set (awaiting st) \<longrightarrow> (\<forall>r. Respond c r \<notin> set es) \<longrightarrow>
        c \<in> set (awaiting st1))"
proof (induction es arbitrary: st)
  case Nil
  then show ?case by simp
next
  case (Cons e es)
  from Cons.prems obtain sa where a: "step syntaxError e st = Some sa"
    and b: "run syntaxError es sa = Some st1"
    by (auto split: option.splits)
  from step_frame [OF a] Cons.IH [OF b] show ?case
    by (auto; metis)
qed

lemma run_result:
  assumes "run syntaxError es st = Some st1"
    and "index < length (questions st)"
    and "result (questions st ! index) = JNull"
    and "\<forall>c r. Respond c r \<in> set es \<longrightarrow> call_index (calls st1 ! c) \<noteq> index"
  shows "result (questions st1 ! index) = JNull"
  using assms
proof (induction es arbitrary: st)
  case Nil
  then show ?case by simp
next
  case (Cons e es)
  from Cons.prems(1) obtain sa where a: "step syntaxError e st = Some sa"
    and b: "run syntaxError es sa = Some st1"
    by (auto split: option.splits)
  from step_frame [OF a] obtain xs where xs: "calls sa = calls st @ xs"
    and len: "length (questions sa) = length (questions st)" by blast
  from run_frame [OF b] obtain ys where ys: "calls st1 = calls sa @ ys" by blast
  have "call_index (calls st ! c) \<noteq> index" if e: "e = Respond c r" for c r
  proof -
    from a e have "c < length (calls st)"
      by (auto simp add: processQuestion_resume_def split: if_splits)
    then have "calls st1 ! c = calls st ! c"
      by (simp add: xs ys nth_append)
    moreover from Cons.prems(4) e have "call_index (calls st1 ! c) \<noteq> index" by simp
    ultimately show ?thesis by simp
  qed
  then have "result (questions sa ! index) = JNull"
    using step_result [OF a Cons.prems(2,3)] by blast
  moreover from Cons.prems(4) have
    "\<forall>c r. Respond c r \<in> set es \<longrightarrow> call_index (calls st1 ! c) \<noteq> index" by simp
  ultimately show ?case
    using Cons.IH [OF b] Cons.prems(2) len by simp
qed

section \<open>Running one question\<close>

text \<open>
  C3. When the trimmed selected key or the trimmed question of the slot is empty,
  \<open>processQuestion\<close> returns at its check: no call of \<^verbatim>\<open>generateContent\<close> is issued or
  awaited, the slot's error is the key-and-question message, and \<open>isLoading\<close> is not
  written: it is left as it was, hence false for a slot that is not loading (the run
  button of a slot is disabled while it is, page.tsx:249).
\<close>

theorem runOne_check_fails:
  assumes "index < length (questions st)"
    and "trim (selectedApiKey st) = [] \<or> trim (question (questions st ! index)) = []"
  shows "\<exists>st1. processQuestion index st = (Fulfilled, st1) \<and>
           calls st1 = calls st \<and> awaiting st1 = awaiting st \<and>
           error (questions st1 ! index) = Some required_message \<and>
           isLoading (questions st1 ! index) = isLoading (questions st ! index) \<and>
           (\<not> isLoading (questions st ! index) \<longrightarrow> \<not> isLoading (questions st1 ! index))"
  using assms by (auto simp add: processQuestion_def)

theorem runOne_check_fails_witness:
  "0 < length (questions Home_initial) \<and> trim (selectedApiKey Home_initial) = [] \<and>
   \<not> isLoading (questions Home_initial ! 0) \<and>
   fst (processQuestion 0 Home_initial) = Fulfilled \<and>
   calls (snd (processQuestion 0 Home_initial)) = [] \<and>
   error (questions (snd (processQuestion 0 Home_initial)) ! 0) = Some required_message \<and>
   \<not> isLoading (questions (snd (processQuestion 0 Home_initial)) ! 0)"
  using runOne_check_fails [where index = 0 and st = Home_initial]
  by (auto simp add: Home_initial_def empty_slot_def trim_Nil)

text \<open>
  The continuation of a call, resumed in any state in which the call is awaited: the slot
  ends not loading; a delivered record replaces result and error; a thrown value
  replaces the error only, so the result is absent afterwards when nothing was stored in
  the slot since the call's start cleared it.
\<close>

lemma processQuestion_resume_outcome:
  assumes "c \<in> set (awaiting st)" and "c < length (calls st)"
    and "call_index (calls st ! c) = index" and "index < length (questions st)"
  shows "\<exists>st2. processQuestion_resume syntaxError c r st = Some st2 \<and>
           \<not> isLoading (questions st2 ! index) \<and>
           c \<notin> set (awaiting st2) \<and> calls st2 = calls st \<and>
           (\<forall>j. j \<noteq> index \<longrightarrow> questions st2 ! j = questions st ! j) \<and>
           (case try_block syntaxError r of
              Inr data \<Rightarrow>
                result (questions st2 ! index) = data \<and> error (questions st2 ! index) = None
            | Inl err \<Rightarrow>
                error (questions st2 ! index) = Some (catch_message err) \<and>
                result (questions st2 ! index) = result (questions st ! index))"
  using assms
  by (auto simp add: processQuestion_resume_def Let_def split: sum.splits)

lemma call_answered_later:
  assumes "index < length (questions st)"
    and "trim (selectedApiKey st) \<noteq> []"
    and "trim (question (questions st ! index)) \<noteq> []"
    and "run syntaxError es (snd (processQuestion index st)) = Some st'"
    and "\<forall>r'. Respond (length (calls st)) r' \<notin> set es"
  shows "length (calls st) \<in> set (awaiting st') \<and>
         length (calls st) < length (calls st') \<and>
         call_index (calls st' ! length (calls st)) = index \<and>
         index < length (questions st')"
proof -
  let ?st1 = "snd (processQuestion index st)"
  from assms(1-3) have st1: "length (calls st) \<in> set (awaiting ?st1)"
    "calls ?st1 = calls st @ [\<lparr>call_index = index, call_apiKey = selectedApiKey st,
                               call_question = question (questions st ! index)\<rparr>]"
    "length (questions ?st1) = length (questions st)"
    by (simp_all add: processQuestion_def)
  from run_frame [OF assms(4)] obtain xs where
    "calls st' = calls ?st1 @ xs" "length (questions st') = length (questions ?st1)"
    "length (calls st) \<in> set (awaiting st')"
    using st1(1) assms(5) by blast
  with st1 assms(1) show ?thesis by (simp add: nth_append)
qed

lemma slot_still_empty:
  assumes "index < length (questions st)"
    and "trim (selectedApiKey st) \<noteq> []"
    and "trim (question (questions st ! index)) \<noteq> []"
    and "run syntaxError es (snd (processQuestion index st)) = Some st'"
    and "\<forall>c' r'. Respond c' r' \<in> set es \<longrightarrow> call_index (calls st' ! c') \<noteq> index"
  shows "result (questions st' ! index) = JNull"
proof (rule run_result [OF assms(4) _ _ assms(5)])
  from assms(1-3) show "index < length (questions (snd (processQuestion index st)))"
    by (simp add: processQuestion_def)
  from assms(1-3) show "result (questions (snd (processQuestion index st)) ! index) = JNull"
    by (simp add: processQuestion_def)
qed

lemma try_block_empty_message:
  "try_block syntaxError (Throws (ErrorObject [])) = Inl (ErrorObject [])"
  by (simp add: try_block_def)





lemma interleaved_example:
  "\<exists>st'. run syntaxError
       [EditQuestion 1 (js ''query B''), RunOne 1, Respond 1 (ResponseText example_response)]
       (snd (processQuestion 0 Home_k1)) = Some st' \<and>
     map call_index (calls st') = [0, 1]"
  by (simp add: processQuestion_def processQuestion_resume_def updateQuestion_def
      try_block_example Home_k1_eq Home_initial_def empty_slot_def trim_k1 k1_not_empty
      trim_initial_question trim_query_B Let_def)


section \<open>Running all questions at once\<close>

text \<open>
  C5. When the trimmed selected key is empty, or no slot has a question that is not empty
  after trimming, \<open>handleSubmitAll\<close> shows an alert and returns: it waits for nothing,
  the log of calls and every slot are as before (the whole state is).
\<close>

theorem runAll_check_fails:
  assumes "trim (selectedApiKey st) = [] \<or>
           (\<forall>q \<in> set (questions st). trim (question q) = [])"
  shows "\<exists>message st1. handleSubmitAll st = (Some message, [], st1) \<and>
           calls st1 = calls st \<and> awaiting st1 = awaiting st \<and>
           questions st1 = questions st \<and> st1 = st"
  using assms by (auto simp add: handleSubmitAll_def filter_empty_conv)

theorem runAll_check_fails_witness:
  "trim (selectedApiKey Home_initial) = [] \<and>
   handleSubmitAll Home_initial = (Some alert_select_key, [], Home_initial) \<and>
   list_all (\<lambda>q. trim (question q) = [])
     (questions (Home_k1\<lparr>questions := replicate 5 (empty_slot [])\<rparr>)) \<and>
   handleSubmitAll (Home_k1\<lparr>questions := replicate 5 (empty_slot [])\<rparr>) =
     (Some alert_no_question, [], Home_k1\<lparr>questions := replicate 5 (empty_slot [])\<rparr>)"
  using runAll_check_fails [of Home_initial]
    runAll_check_fails [of "Home_k1\<lparr>questions := replicate 5 (empty_slot [])\<rparr>"]
  by (auto simp add: handleSubmitAll_def Home_initial_def Home_k1_eq empty_slot_def trim_Nil
      trim_k1 k1_not_empty list_all_iff)

lemma five_slots:
  assumes "map question qs = [a, b, c, d, e]"
  shows "\<exists>s0 s1 s2 s3 s4. qs = [s0, s1, s2, s3, s4] \<and> question s0 = a \<and>
           question s1 = b \<and> question s2 = c \<and> question s3 = d \<and> question s4 = e"
  using assms by (auto simp add: map_eq_Cons_conv)

lemma runAll_example_state:
  assumes key: "selectedApiKey st = js ''k1''"
    and qs: "questions st = [s0, s1, s2, s3, s4]"
    and q0: "question s0 = js ''query A''" and q1: "question s1 = []"
    and q2: "question s2 = js ''query B''" and q3: "question s3 = []"
    and q4: "question s4 = []"
  shows "handleSubmitAll st =
      (None,
       [Awaiting (length (calls st)), Fulfilled, Awaiting (Suc (length (calls st))), Fulfilled,
        Fulfilled],
       st\<lparr>questions :=
            [s0\<lparr>isLoading := True, result := JNull, error := None\<rparr>, s1,
             s2\<lparr>isLoading := True, result := JNull, error := None\<rparr>, s3, s4],
          calls := calls st @
            [\<lparr>call_index = 0, call_apiKey = js ''k1'', call_question = js ''query A''\<rparr>,
             \<lparr>call_index = 2, call_apiKey = js ''k1'', call_question = js ''query B''\<rparr>],
          awaiting := awaiting st @ [length (calls st), Suc (length (calls st))]\<rparr>)"
proof -
  have upt5: "[0..<5] = [0, 1, 2, 3, 4::nat]"
    by (simp add: upt_rec)
  show ?thesis
    by (simp add: handleSubmitAll_def key qs q0 q1 q2 q3 q4 trim_k1 k1_not_empty trim_query_A
          trim_query_B trim_Nil upt5 processQuestion_def)
qed

text \<open>
  C4. With the key \<^verbatim>\<open>k1\<close> selected and the questions \<^verbatim>\<open>query A\<close>, empty,
  \<^verbatim>\<open>query B\<close>, empty, empty, \<open>handleSubmitAll\<close> issues exactly two calls, for the
  slots 0 and 2, and waits for exactly these two: its \<^verbatim>\<open>Promise.all\<close> is not fulfilled
  after the start, nor after either one of the calls has been answered, and is fulfilled
  after both have been, in either order and whatever the answers. No further call is
  issued, and the slots 1, 3 and 4 are the same in every one of these states.
\<close>

theorem runAll_example:
  assumes key: "selectedApiKey st = js ''k1''"
    and qs: "map question (questions st) = [js ''query A'', [], js ''query B'', [], []]"
  shows "\<exists>promises st1.
      handleSubmitAll st = (None, promises, st1) \<and>
      promises = [Awaiting (length (calls st)), Fulfilled, Awaiting (Suc (length (calls st))),
                  Fulfilled, Fulfilled] \<and>
      calls st1 = calls st @
        [\<lparr>call_index = 0, call_apiKey = js ''k1'', call_question = js ''query A''\<rparr>,
         \<lparr>call_index = 2, call_apiKey = js ''k1'', call_question = js ''query B''\<rparr>] \<and>
      questions st1 ! 1 = questions st ! 1 \<and> questions st1 ! 3 = questions st ! 3 \<and>
      questions st1 ! 4 = questions st ! 4 \<and>
      \<not> Promise_all_fulfilled st1 promises \<and>
      (\<forall>r r'. \<exists>sa sb sab sba.
         processQuestion_resume syntaxError (length (calls st)) r st1 = Some sa \<and>
         processQuestion_resume syntaxError (Suc (length (calls st))) r' st1 = Some sb \<and>
         processQuestion_resume syntaxError (Suc (length (calls st))) r' sa = Some sab \<and>
         processQuestion_resume syntaxError (length (calls st)) r sb = Some sba \<and>
         \<not> Promise_all_fulfilled sa promises \<and> \<not> Promise_all_fulfilled sb promises \<and>
         Promise_all_fulfilled sab promises \<and> Promise_all_fulfilled sba promises \<and>
         calls sab = calls st1 \<and> calls sba = calls st1 \<and>
         (\<forall>s \<in> {sa, sb, sab, sba}.
            questions s ! 1 = questions st ! 1 \<and> questions s ! 3 = questions st ! 3 \<and>
            questions s ! 4 = questions st ! 4))"
proof -
  from five_slots [OF qs] obtain s0 s1 s2 s3 s4 where
    slots: "questions st = [s0, s1, s2, s3, s4]"
    and q: "question s0 = js ''query A''" "question s1 = []" "question s2 = js ''query B''"
      "question s3 = []" "question s4 = []"
    by blast
  note submitted = runAll_example_state [OF key slots q]
  show ?thesis
    unfolding submitted
    by (simp add: slots processQuestion_resume_def Promise_all_fulfilled_def fulfilled_def
          nth_append Let_def)
qed

theorem runAll_example_witness:
  "selectedApiKey Home_queries = js ''k1'' \<and>
   map question (questions Home_queries) = [js ''query A'', [], js ''query B'', [], []] \<and>
   fst (handleSubmitAll Home_queries) = None \<and>
   fst (snd (handleSubmitAll Home_queries)) =
     [Awaiting 0, Fulfilled, Awaiting 1, Fulfilled, Fulfilled] \<and>
   calls (snd (snd (handleSubmitAll Home_queries))) =
     [\<lparr>call_index = 0, call_apiKey = js ''k1'', call_question = js ''query A''\<rparr>,
      \<lparr>call_index = 2, call_apiKey = js ''k1'', call_question = js ''query B''\<rparr>] \<and>
   \<not> Promise_all_fulfilled (snd (snd (handleSubmitAll Home_queries)))
        (fst (snd (handleSubmitAll Home_queries))) \<and>
   questions (snd (snd (handleSubmitAll Home_queries))) ! 1 = empty_slot [] \<and>
   questions (snd (snd (handleSubmitAll Home_queries))) ! 3 = empty_slot [] \<and>
   questions (snd (snd (handleSubmitAll Home_queries))) ! 4 = empty_slot []"
proof -
  have h: "selectedApiKey Home_queries = js ''k1''"
    "map question (questions Home_queries) = [js ''query A'', [], js ''query B'', [], []]"
    "calls Home_queries = []"
    "questions Home_queries ! 1 = empty_slot []" "questions Home_queries ! 3 = empty_slot []"
    "questions Home_queries ! 4 = empty_slot []"
    by (simp_all add: Home_queries_def Home_k1_eq Home_initial_def empty_slot_def)
  from runAll_example [OF h(1,2), of id] show ?thesis
    unfolding h(3-6) using h(1,2) by auto
qed

section \<open>Cleaning and decoding the response\<close>














lemma parse_empty_object: "JSON_parse (cleanJsonStr (js ''{}'')) = Some (JObject [])"
  by code_simp

lemma empty_object_no_BookInfo: "\<not> isBookInfo (JObject [])"
  by code_simp

lemma Home_k1_facts:
  "0 < length (questions Home_k1)" "trim (selectedApiKey Home_k1) \<noteq> []"
  "trim (question (questions Home_k1 ! 0)) \<noteq> []" "calls Home_k1 = []"
  by (simp_all add: Home_k1_eq Home_initial_def empty_slot_def trim_k1 k1_not_empty
      trim_initial_question)

text \<open>
  C7, as the claim states it, fails: what \<^verbatim>\<open>JSON.parse\<close> returns is stored without
  any test of its shape. The response \<^verbatim>\<open>{}\<close> ends as the slot's result, with no error.
\<close>

theorem wrong_shape_stored:
  "\<exists>st. run id [RunOne 0, Respond 0 (ResponseText (js ''{}''))] Home_k1 = Some st \<and>
     result (questions st ! 0) = JObject [] \<and>
     \<not> isBookInfo (result (questions st ! 0)) \<and>
     error (questions st ! 0) = None \<and>
     \<not> isLoading (questions st ! 0)"
  using Home_k1_facts
  by (simp add: processQuestion_def processQuestion_resume_def try_block_def
      parse_empty_object empty_object_no_BookInfo)

text \<open>
  C7, amended. When the call of a run is answered, after any events \<open>es\<close> in between,
  with a response whose cleaned text is not a JSON text, the run puts the message of the
  SyntaxError of \<^verbatim>\<open>JSON.parse\<close> into the slot's error and stores nothing in the result,
  which is absent when no call of the same slot was answered in between. When the cleaned
  text is a JSON text, its value becomes the result, whatever its shape, and the error is
  absent.
\<close>

theorem response_decoded_or_error:
  assumes "index < length (questions st)"
    and "trim (selectedApiKey st) \<noteq> []"
    and "trim (question (questions st ! index)) \<noteq> []"
    and "run syntaxError es (snd (processQuestion index st)) = Some st'"
    and "\<forall>r'. Respond (length (calls st)) r' \<notin> set es"
  shows "(\<exists>st2.
            processQuestion_resume syntaxError (length (calls st)) (ResponseText t) st'
              = Some st2 \<and>
            \<not> isLoading (questions st2 ! index) \<and>
            (JSON_parse (cleanJsonStr t) = None \<longrightarrow>
               error (questions st2 ! index) = Some (syntaxError (cleanJsonStr t)) \<and>
               result (questions st2 ! index) = result (questions st' ! index)) \<and>
            (\<forall>data. JSON_parse (cleanJsonStr t) = Some data \<longrightarrow>
               result (questions st2 ! index) = data \<and> error (questions st2 ! index) = None)) \<and>
         ((\<forall>c' r'. Respond c' r' \<in> set es \<longrightarrow> call_index (calls st' ! c') \<noteq> index) \<longrightarrow>
            result (questions st' ! index) = JNull)"
proof -
  from call_answered_later [OF assms] have later:
    "length (calls st) \<in> set (awaiting st')" "length (calls st) < length (calls st')"
    "call_index (calls st' ! length (calls st)) = index" "index < length (questions st')"
    by simp_all
  from processQuestion_resume_outcome [OF later, of syntaxError "ResponseText t"]
  have answer: "\<exists>st2.
      processQuestion_resume syntaxError (length (calls st)) (ResponseText t) st' = Some st2 \<and>
      \<not> isLoading (questions st2 ! index) \<and>
      (JSON_parse (cleanJsonStr t) = None \<longrightarrow>
         error (questions st2 ! index) = Some (syntaxError (cleanJsonStr t)) \<and>
         result (questions st2 ! index) = result (questions st' ! index)) \<and>
      (\<forall>data. JSON_parse (cleanJsonStr t) = Some data \<longrightarrow>
         result (questions st2 ! index) = data \<and> error (questions st2 ! index) = None)"
    by (auto simp add: try_block_def catch_message_def)
  have "result (questions st' ! index) = JNull"
    if "\<forall>c' r'. Respond c' r' \<in> set es \<longrightarrow> call_index (calls st' ! c') \<noteq> index"
    by (rule slot_still_empty [OF assms(1-4) that])
  with answer show ?thesis by blast
qed

lemma parse_untagged: "JSON_parse (cleanJsonStr untagged_response) = None"
  by code_simp

theorem response_decoded_or_error_witness:
  "0 < length (questions Home_k1) \<and> trim (selectedApiKey Home_k1) \<noteq> [] \<and>
   trim (question (questions Home_k1 ! 0)) \<noteq> [] \<and>
   JSON_parse (cleanJsonStr untagged_response) = None \<and>
   (\<exists>st' st2.
      run (\<lambda>text. js ''Unexpected token'')
        [EditQuestion 1 (js ''query B''), RunOne 1, Respond 1 (ResponseText example_response)]
        (snd (processQuestion 0 Home_k1)) = Some st' \<and>
      processQuestion_resume (\<lambda>text. js ''Unexpected token'') 0
        (ResponseText untagged_response) st' = Some st2 \<and>
      error (questions st2 ! 0) = Some (js ''Unexpected token'') \<and>
      result (questions st2 ! 0) = JNull \<and>
      \<not> isLoading (questions st2 ! 0))"
proof -
  let ?es = "[EditQuestion 1 (js ''query B''), RunOne 1,
              Respond 1 (ResponseText example_response)]"
  let ?msg = "\<lambda>text::jsstring. js ''Unexpected token''"
  from interleaved_example [of ?msg] obtain st' where
    run: "run ?msg ?es (snd (processQuestion 0 Home_k1)) = Some st'"
    and log: "map call_index (calls st') = [0, 1]"
    by (elim exE conjE)
  have not0: "\<forall>r'. Respond (length (calls Home_k1)) r' \<notin> set ?es"
    by (simp add: Home_k1_facts(4))
  from log have "length (calls st') = 2"
    by (metis length_map length_Cons list.size(3) One_nat_def Suc_1)
  with log have "call_index (calls st' ! 1) = 1"
    by (metis nth_map nth_Cons_0 nth_Cons_Suc One_nat_def one_less_numeral_iff
        semiring_norm(76))
  then have others: "\<forall>c' r'. Respond c' r' \<in> set ?es \<longrightarrow> call_index (calls st' ! c') \<noteq> 0"
    by simp
  from response_decoded_or_error [OF Home_k1_facts(1-3) run not0, of untagged_response]
    others run Home_k1_facts
  show ?thesis
    by (auto simp add: parse_untagged)
qed

section \<open>Result and error together\<close>

text \<open>
  C1. The check of \<open>processQuestion\<close> writes the error and leaves the result of an earlier
  run in place, while the other paths clear the field they do not set. After a successful
  run of slot 0, deleting the selected key (or emptying the question) and running the
  slot again leaves the slot with the earlier result and the key-and-question message
  both present.
\<close>

theorem stale_result_beside_error:
  "(\<exists>st. run syntaxError
       [TypeApiKey (js ''k1''), AddApiKey, RunOne 0, Respond 0 (ResponseText example_response),
        DeleteApiKey (js ''k1''), RunOne 0] Home_initial = Some st \<and>
     result (questions st ! 0) = example_BookInfo \<and>
     error (questions st ! 0) = Some required_message) \<and>
   (\<exists>st. run syntaxError
       [RunOne 0, Respond 0 (ResponseText example_response), EditQuestion 0 [], RunOne 0]
       Home_k1 = Some st \<and>
     result (questions st ! 0) = example_BookInfo \<and>
     error (questions st ! 0) = Some required_message) \<and>
   example_BookInfo \<noteq> JNull"
  by (simp add: setNewApiKey_def handleAddApiKey_def handleDeleteApiKey_def first_or_empty_def
      processQuestion_def processQuestion_resume_def updateQuestion_def try_block_example
      Home_k1_eq Home_initial_def empty_slot_def example_BookInfo_def
      trim_k1 k1_not_empty trim_initial_question trim_Nil Let_def)

end
